theory Spec2Isabelle
  imports Complex_Main "HOL-Library.Sublist"
begin

section \<open>Python values used by the scraper\<close>

text \<open>
  An exception is modelled by its message (what \<open>str(e)\<close> returns): the scraper only ever
  logs an exception or searches its message for a keyword. A computation that may raise
  returns \<open>string + 'a\<close>, with \<open>Inl\<close> carrying the message.
\<close>

type_synonym exn = string

text \<open>\<open>d[k]\<close> on a dictionary given as an association list: a missing key raises KeyError,
  whose message is the quoted key.\<close>

definition getitem :: "(string \<times> 'v) list \<Rightarrow> string \<Rightarrow> exn + 'v" where
  "getitem d k = (case map_of d k of None \<Rightarrow> Inl ([CHR 0x27] @ k @ [CHR 0x27]) | Some v \<Rightarrow> Inr v)"

text \<open>\<open>needle in haystack\<close> on strings is the contiguous-substring test.\<close>

definition py_in :: "string \<Rightarrow> string \<Rightarrow> bool" where
  "py_in needle haystack = sublist needle haystack"

text \<open>\<open>str.lower()\<close>. A string is a list of 8-bit characters; the letters \<open>A\<close> to \<open>Z\<close> are
  mapped to \<open>a\<close> to \<open>z\<close> and every other character is unchanged. The phrases the scraper
  searches for are ASCII.\<close>

definition lower_char :: "char \<Rightarrow> char" where
  "lower_char c =
     (let n = (of_char c :: nat) in if 65 \<le> n \<and> n \<le> 90 then char_of (n + 32) else c)"

definition lower :: "string \<Rightarrow> string" where
  "lower s = map lower_char s"

text \<open>Truthiness of an \<open>Optional[float]\<close>: \<open>None\<close> and \<open>0.0\<close> are falsy.\<close>

definition truthy_float :: "real option \<Rightarrow> bool" where
  "truthy_float x = (case x of None \<Rightarrow> False | Some v \<Rightarrow> v \<noteq> 0)"

text \<open>Truthiness of an \<open>Optional[str]\<close>: \<open>None\<close> and the empty string are falsy.\<close>

definition truthy_str :: "string option \<Rightarrow> bool" where
  "truthy_str x = (case x of None \<Rightarrow> False | Some v \<Rightarrow> v \<noteq> [])"

section \<open>config.py\<close>

definition SELECTORS :: "(string \<times> string) list" where
  "SELECTORS =
    [(''search_box'', ''input#searchboxinput''),
     (''search_button'', ''button#searchbox-searchbutton''),
     (''results_container'', ''div[role='' @ [CHR 0x27] @ ''feed'' @ [CHR 0x27] @ '']''),
     (''result_items'', ''div[role='' @ [CHR 0x27] @ ''feed'' @ [CHR 0x27] @ ''] > div > div > a''),
     (''place_name'', ''h1.DUwDvf, h1.fontHeadlineLarge''),
     (''place_address'', ''button[data-item-id='' @ [CHR 0x27] @ ''address'' @ [CHR 0x27]
        @ ''], button[data-tooltip='' @ [CHR 0x27] @ ''Copy address'' @ [CHR 0x27] @ '']''),
     (''place_phone'', ''button[data-item-id*='' @ [CHR 0x27] @ ''phone'' @ [CHR 0x27]
        @ ''], button[aria-label*='' @ [CHR 0x27] @ ''Phone'' @ [CHR 0x27] @ '']''),
     (''place_website'', ''a[data-item-id='' @ [CHR 0x27] @ ''authority'' @ [CHR 0x27]
        @ ''], a[aria-label*='' @ [CHR 0x27] @ ''Website'' @ [CHR 0x27] @ '']''),
     (''place_category'', ''button[jsaction*='' @ [CHR 0x27] @ ''category'' @ [CHR 0x27]
        @ ''], button.DkEaL''),
     (''place_rating'', ''div.F7nice > span[role='' @ [CHR 0x27] @ ''img'' @ [CHR 0x27]
        @ ''], span.ceNzKf, div.F7nice span[aria-hidden='' @ [CHR 0x27] @ ''true'' @ [CHR 0x27] @ '']''),
     (''place_hours'', ''button[data-item-id*='' @ [CHR 0x27] @ ''oh'' @ [CHR 0x27]
        @ ''], div[aria-label*='' @ [CHR 0x27] @ ''Hours'' @ [CHR 0x27] @ '']''),
     (''place_price'', ''span[aria-label*='' @ [CHR 0x27] @ ''Price'' @ [CHR 0x27]
        @ ''], span.mgr77e''),
     (''place_status'', ''span[class*='' @ [CHR 0x27] @ ''ZDu9vd'' @ [CHR 0x27]
        @ ''], span.o0Svhf''),
     (''captcha_indicator'', ''iframe[src*='' @ [CHR 0x27] @ ''recaptcha'' @ [CHR 0x27]
        @ ''], div[id*='' @ [CHR 0x27] @ ''captcha'' @ [CHR 0x27] @ '']'')]"

text \<open>The timing table; delays are in seconds, timeouts in milliseconds.\<close>

definition TIMING :: "(string \<times> real) list" where
  "TIMING =
    [(''page_load_timeout'', 30000),
     (''navigation_timeout'', 30000),
     (''min_delay'', 1.5),
     (''max_delay'', 3.5),
     (''scroll_delay'', 0.8),
     (''item_parse_delay'', 0.5)]"

definition GEO_TOLERANCE_METERS :: real where
  "GEO_TOLERANCE_METERS = 25"

section \<open>The page as the scraper sees it\<close>

text \<open>
  The browser driver is an external collaborator. A \<open>page\<close> value is one state of the
  loaded page, given by what each query of the driver answers in that state:
  \<open>query_selector\<close> answers whether a selector matches an element (or raises),
  \<open>content\<close> is the markup (or raises), \<open>wait_for_load_state\<close> answers whether waiting
  for the given load state raises. \<open>extract_text\<close>, \<open>extract_attribute\<close> and
  \<open>extract_coordinates\<close> are the results of the scraper's helpers of these names, which
  swallow their own exceptions. The remaining fields are the values of the extraction
  steps that \<open>parse_place_details\<close> wraps in a \<open>try\<close> of their own: the Menu-tab search
  for a website (which may raise), the e-mail addresses found for a given website, the
  rating, the hours and the price.
\<close>

record page =
  url :: string
  query_selector :: "string \<Rightarrow> exn + bool"
  content :: "exn + string"
  wait_for_load_state :: "string \<Rightarrow> exn option"
  extract_text :: "string \<Rightarrow> string option"
  extract_attribute :: "string \<Rightarrow> string \<Rightarrow> string option"
  extract_coordinates :: "real option \<times> real option"
  menu_website :: "exn + string option"
  found_emails :: "string option \<Rightarrow> string option"
  found_rating :: "real option"
  found_hours :: "string option"
  found_price :: "string option"

section \<open>check_for_captcha\<close>

definition blocking_keywords :: "string list" where
  "blocking_keywords = [''unusual traffic'', ''automated requests'', ''verify you'', ''not a robot'']"

text \<open>
  Both scrapers carry the same function. Every exception raised inside (the selector
  lookup, the element query, the content fetch) is caught and the answer is False.
\<close>

definition check_for_captcha :: "page \<Rightarrow> bool" where
  "check_for_captcha pg =
     (case getitem SELECTORS ''captcha_indicator'' of
        Inl e \<Rightarrow> False
      | Inr sel \<Rightarrow>
         (case query_selector pg sel of
            Inl e \<Rightarrow> False
          | Inr captcha \<Rightarrow>
             if captcha then True
             else (case content pg of
                     Inl e \<Rightarrow> False
                   | Inr c \<Rightarrow>
                       if list_ex (\<lambda>keyword. py_in keyword (lower c)) blocking_keywords
                       then True else False)))"

text \<open>The selector the function queries.\<close>

definition captcha_indicator :: string where
  "captcha_indicator = ''iframe[src*='' @ [CHR 0x27] @ ''recaptcha'' @ [CHR 0x27]
        @ ''], div[id*='' @ [CHR 0x27] @ ''captcha'' @ [CHR 0x27] @ '']''"

text \<open>A text contains a phrase ignoring case when one of its contiguous pieces equals the
  phrase once both are lower-cased.\<close>

definition contains_ignoring_case :: "string \<Rightarrow> string \<Rightarrow> bool" where
  "contains_ignoring_case text phrase =
     (\<exists>before piece after. text = before @ piece @ after \<and> lower piece = lower phrase)"

section \<open>The scraped record\<close>

text \<open>
  \<open>parse_place_details\<close> builds every record as a dictionary literal with the same
  fourteen keys, and nothing else creates or changes one, so a record is a structure
  with these fields; \<open>place['name']\<close> is the field \<open>name\<close> and cannot raise.
\<close>

record place =
  name :: string
  address :: "string option"
  latitude :: "real option"
  longitude :: "real option"
  phone :: "string option"
  email :: "string option"
  website :: "string option"
  google_maps_url :: string
  category :: "string option"
  rating :: "real option"
  hours :: "string option"
  price_level :: "string option"
  business_status :: "string option"
  scraped_at :: string

text \<open>\<open>place.keys()\<close>, in insertion order.\<close>

definition place_keys :: "string list" where
  "place_keys = [''name'', ''address'', ''latitude'', ''longitude'', ''phone'', ''email'',
     ''website'', ''google_maps_url'', ''category'', ''rating'', ''hours'', ''price_level'',
     ''business_status'', ''scraped_at'']"

section \<open>IncrementalSaver (scraper\_by\_link.py)\<close>

text \<open>
  The four files of one saver. Their names differ in their suffixes, so the files are
  distinct; \<open>None\<close> is a file that does not exist. The resume file holds the JSON document
  written by \<open>save_resume_state\<close>; the list it stores is made from a set and is turned
  back into a set when read, so the document is modelled with the set.
\<close>

datatype csv_line = Header "string list" | Row place

record resume_doc =
  doc_scraped_urls :: "string set"
  doc_timestamp :: string

record disk =
  csv_file :: "csv_line list option"
  jsonl_file :: "place list option"
  resume_file :: "resume_doc option"
  failed_file :: "string list option"

text \<open>The saver object: its in-memory set of scraped URLs, beside the files it names.\<close>

record ledger =
  scraped_urls :: "string set"
  files :: disk

text \<open>
  Each write is wrapped in \<open>try ... except Exception\<close>, which logs and goes on. Whether a
  write raises is decided by the file system, so it is an input of the model: a flag per
  write, False when opening the file raises (nothing reaches the file then).
\<close>

record io =
  csv_ok :: bool
  jsonl_ok :: bool
  resume_ok :: bool

text \<open>The lines of a file opened in append mode: a missing file is created empty.\<close>

definition lines_of :: "'a list option \<Rightarrow> 'a list" where
  "lines_of f = (case f of None \<Rightarrow> [] | Some ls \<Rightarrow> ls)"

text \<open>\<open>__init__\<close>: no URL scraped; the file names carry the start time, so no file exists.\<close>

definition empty_disk :: disk where
  "empty_disk = \<lparr>csv_file = None, jsonl_file = None, resume_file = None, failed_file = None\<rparr>"

definition init_ledger :: ledger where
  "init_ledger = \<lparr>scraped_urls = {}, files = empty_disk\<rparr>"

text \<open>A new saver object over files that are already there.\<close>

definition fresh_instance :: "disk \<Rightarrow> ledger" where
  "fresh_instance d = \<lparr>scraped_urls = {}, files = d\<rparr>"

definition save_resume_state :: "bool \<Rightarrow> string \<Rightarrow> ledger \<Rightarrow> ledger" where
  "save_resume_state ok now s =
     (if ok
      then s\<lparr>files := (files s)\<lparr>resume_file :=
              Some \<lparr>doc_scraped_urls = scraped_urls s, doc_timestamp = now\<rparr>\<rparr>\<rparr>
      else s)"

text \<open>The CSV step: the header is written when the file did not exist, then the row.\<close>

definition write_csv :: "place \<Rightarrow> disk \<Rightarrow> disk" where
  "write_csv p d =
     (let file_exists = (csv_file d \<noteq> None);
          opened = lines_of (csv_file d);
          with_header = (if \<not> file_exists then opened @ [Header place_keys] else opened)
      in d\<lparr>csv_file := Some (with_header @ [Row p])\<rparr>)"

definition write_jsonl :: "place \<Rightarrow> disk \<Rightarrow> disk" where
  "write_jsonl p d = d\<lparr>jsonl_file := Some (lines_of (jsonl_file d) @ [p])\<rparr>"

text \<open>
  \<open>save_place\<close>. The test \<open>'google_maps_url' in place\<close> holds for every record, which
  always has that key.
\<close>

definition save_place :: "io \<Rightarrow> string \<Rightarrow> place \<Rightarrow> ledger \<Rightarrow> ledger" where
  "save_place w now p s =
     (let s1 = (if csv_ok w then s\<lparr>files := write_csv p (files s)\<rparr> else s);
          s2 = (if jsonl_ok w then s1\<lparr>files := write_jsonl p (files s1)\<rparr> else s1);
          s3 = s2\<lparr>scraped_urls := insert (google_maps_url p) (scraped_urls s2)\<rparr>
      in save_resume_state (resume_ok w) now s3)"

definition failed_line :: "string \<Rightarrow> string \<Rightarrow> string" where
  "failed_line u err = u @ '' | Error: '' @ err"

definition save_failed_url :: "bool \<Rightarrow> string \<Rightarrow> string \<Rightarrow> ledger \<Rightarrow> ledger" where
  "save_failed_url ok u err s =
     (if ok
      then s\<lparr>files := (files s)\<lparr>failed_file :=
              Some (lines_of (failed_file (files s)) @ [failed_line u err])\<rparr>\<rparr>
      else s)"

text \<open>
  \<open>load_resume_state\<close>: the set stored in the resume file when the file exists and can be
  read (\<open>readable\<close>), the empty set otherwise.
\<close>

definition load_resume_state :: "bool \<Rightarrow> ledger \<Rightarrow> string set" where
  "load_resume_state readable s =
     (case resume_file (files s) of
        None \<Rightarrow> {}
      | Some doc \<Rightarrow> if readable then doc_scraped_urls doc else {})"

subsection \<open>Runs of the saver\<close>

text \<open>A run is the sequence of calls made on one saver object, each with the outcome of
  its writes.\<close>

datatype ledger_call =
    SavePlace io string place
  | SaveFailedUrl bool string string

fun call :: "ledger_call \<Rightarrow> ledger \<Rightarrow> ledger" where
  "call (SavePlace w now p) s = save_place w now p s"
| "call (SaveFailedUrl ok u err) s = save_failed_url ok u err s"

fun run :: "ledger_call list \<Rightarrow> ledger \<Rightarrow> ledger" where
  "run [] s = s"
| "run (c # cs) s = run cs (call c s)"

text \<open>A record for the identifier has reached an output stream.\<close>

definition recorded :: "string \<Rightarrow> disk \<Rightarrow> bool" where
  "recorded u d =
     (list_ex (\<lambda>l. case l of Header h \<Rightarrow> False | Row p \<Rightarrow> google_maps_url p = u) (lines_of (csv_file d))
      \<or> list_ex (\<lambda>p. google_maps_url p = u) (lines_of (jsonl_file d)))"

text \<open>The failure log has an entry for the identifier.\<close>

definition failure_logged :: "string \<Rightarrow> disk \<Rightarrow> bool" where
  "failure_logged u d = list_ex (\<lambda>l. prefix (u @ '' | Error: '') l) (lines_of (failed_file d))"

text \<open>The invariant as the specification words it.\<close>

definition ledger_invariant :: "ledger \<Rightarrow> bool" where
  "ledger_invariant s =
     (\<forall>u. u \<in> scraped_urls s \<longleftrightarrow> (recorded u (files s) \<or> failure_logged u (files s)))"

text \<open>At least one of the two stream writes of a \<open>save_place\<close> call went through.\<close>

fun stream_written :: "ledger_call \<Rightarrow> bool" where
  "stream_written (SavePlace w now p) = (csv_ok w \<or> jsonl_ok w)"
| "stream_written (SaveFailedUrl ok u err) = True"

section \<open>ProgressTracker and ProxyManager\<close>

record progress_tracker =
  total :: int
  success :: nat
  failed :: nat
  current :: nat

definition increment_success :: "progress_tracker \<Rightarrow> progress_tracker" where
  "increment_success t = t\<lparr>success := success t + 1, current := current t + 1\<rparr>"

definition increment_failed :: "progress_tracker \<Rightarrow> progress_tracker" where
  "increment_failed t = t\<lparr>failed := failed t + 1, current := current t + 1\<rparr>"

record proxy =
  server :: string
  credentials :: "(string \<times> string) option"

record proxy_manager =
  proxies :: "proxy list"
  current_index :: nat

text \<open>\<open>get_next_proxy\<close>: round robin over the loaded list; \<open>None\<close> when the list is empty.\<close>

definition get_next_proxy :: "proxy_manager \<Rightarrow> proxy option \<times> proxy_manager" where
  "get_next_proxy m =
     (if proxies m = [] then (None, m)
      else (Some (proxies m ! current_index m),
            m\<lparr>current_index := (current_index m + 1) mod length (proxies m)\<rparr>))"

section \<open>The scraper object\<close>

text \<open>
  The state of one scraper: the accepted records, the names seen, and the objects it
  holds (saver, progress tracker, proxy manager; the keyword scraper has no saver and no
  tracker and leaves these fields alone). Two fields are not in the source and only
  record what happened: \<open>visited\<close> lists the links handed to \<open>page.goto\<close> by the
  per-item loop, in order, and \<open>attempts\<close> lists the outcome of each session attempt of
  \<open>scrape_with_retry\<close> (\<open>Some\<close> the message of the exception that ended it, \<open>None\<close> when
  it returned).
\<close>

record scraper =
  scraped_places :: "place list"
  seen_places :: "string set"
  saver :: ledger
  progress :: progress_tracker
  proxy_mgr :: proxy_manager
  visited :: "string list"
  attempts :: "exn option list"

section \<open>is\_duplicate\<close>

text \<open>
  \<open>geodesic\<close> is the distance function of the geopy library, in meters; it is not part of
  the repository and is a parameter here, taken to answer with a distance for every two
  points. Floating-point numbers are modelled as reals.
\<close>

type_synonym geo = "real \<times> real \<Rightarrow> real \<times> real \<Rightarrow> real"

text \<open>The \<open>for place in self.scraped_places\<close> loop: True when it returns True, False when
  it runs to its end.\<close>

fun scan_places :: "geo \<Rightarrow> string \<Rightarrow> real \<Rightarrow> real \<Rightarrow> place list \<Rightarrow> bool" where
  "scan_places geodesic nm lat lon [] = False"
| "scan_places geodesic nm lat lon (p # ps) =
     (if name p = nm then True
      else if truthy_float (latitude p) \<and> truthy_float (longitude p)
              \<and> geodesic (lat, lon) (the (latitude p), the (longitude p)) < GEO_TOLERANCE_METERS
        then True
      else scan_places geodesic nm lat lon ps)"

text \<open>Both scrapers carry the same \<open>is_duplicate\<close>. The guard \<open>if lat and lon\<close> tests the
  truthiness of the two optional floats.\<close>

definition is_duplicate ::
  "geo \<Rightarrow> string \<Rightarrow> real option \<Rightarrow> real option \<Rightarrow> scraper \<Rightarrow> bool \<times> scraper" where
  "is_duplicate geodesic nm lat lon s =
     (if nm = [] then (True, s)
      else if nm \<in> seen_places s then (True, s)
      else if truthy_float lat \<and> truthy_float lon
              \<and> scan_places geodesic nm (the lat) (the lon) (scraped_places s)
        then (True, s)
      else (False, s\<lparr>seen_places := insert nm (seen_places s)\<rparr>))"

section \<open>parse\_place\_details\<close>

definition then_do :: "exn + 'a \<Rightarrow> ('a \<Rightarrow> exn + 'b) \<Rightarrow> exn + 'b" where
  "then_do m f = (case m of Inl e \<Rightarrow> Inl e | Inr v \<Rightarrow> f v)"

text \<open>\<open>extract_text(page, SELECTORS[k])\<close> and \<open>extract_attribute(page, SELECTORS[k], a)\<close>:
  the lookup of the selector is outside the helper and may raise.\<close>

definition select_text :: "page \<Rightarrow> string \<Rightarrow> exn + string option" where
  "select_text pg k = then_do (getitem SELECTORS k) (\<lambda>sel. Inr (extract_text pg sel))"

definition select_attribute :: "page \<Rightarrow> string \<Rightarrow> string \<Rightarrow> exn + string option" where
  "select_attribute pg k a = then_do (getitem SELECTORS k) (\<lambda>sel. Inr (extract_attribute pg sel a))"

text \<open>The website step: the attribute of the website link and, when that is empty, the
  Menu-tab search, whose exception leaves the value as it was.\<close>

definition website_step :: "page \<Rightarrow> string option \<Rightarrow> string option" where
  "website_step pg site =
     (if \<not> truthy_str site
      then (case menu_website pg of Inl e \<Rightarrow> site | Inr w \<Rightarrow> w)
      else site)"

text \<open>The part of \<open>parse_place_details\<close> after the duplicate check: the field extraction
  and the dictionary literal.\<close>

definition build_place ::
  "string \<Rightarrow> page \<Rightarrow> string \<Rightarrow> string \<Rightarrow> real option \<Rightarrow> real option \<Rightarrow> exn + place" where
  "build_place now pg place_url nm lat lon =
     then_do (select_text pg ''place_address'') (\<lambda>addr.
     then_do (select_text pg ''place_phone'') (\<lambda>ph.
     then_do (select_attribute pg ''place_website'' ''href'') (\<lambda>site.
     then_do (select_text pg ''place_category'') (\<lambda>cat.
     then_do (select_text pg ''place_status'') (\<lambda>status.
       Inr \<lparr>name = nm, address = addr, latitude = lat, longitude = lon, phone = ph,
            email = found_emails pg (website_step pg site),
            website = website_step pg site,
            google_maps_url = place_url, category = cat, rating = found_rating pg,
            hours = found_hours pg, price_level = found_price pg,
            business_status = status, scraped_at = now\<rparr>)))))"

text \<open>
  The part shared by both scrapers, from the CAPTCHA check on. The result is the value
  returned (\<open>Inr\<close>) or the exception raised (\<open>Inl\<close>), with the state of the scraper at
  that point.
\<close>

definition parse_from_check ::
  "geo \<Rightarrow> string \<Rightarrow> page \<Rightarrow> scraper \<Rightarrow> (exn + place option) \<times> scraper" where
  "parse_from_check geodesic now pg s =
     (if check_for_captcha pg then (Inl ''CAPTCHA detected during parsing'', s)
      else
        (case select_text pg ''place_name'' of
           Inl e \<Rightarrow> (Inl e, s)
         | Inr nm \<Rightarrow>
            if \<not> truthy_str nm then (Inr None, s)
            else
              (let (lat, lon) = extract_coordinates pg;
                   (dup, s') = is_duplicate geodesic (the nm) lat lon s
               in if dup then (Inr None, s')
                  else (case build_place now pg (url pg) (the nm) lat lon of
                          Inl e \<Rightarrow> (Inl e, s')
                        | Inr p \<Rightarrow> (Inr (Some p), s')))))"

text \<open>The handler around the whole body: \<open>except Exception\<close> logs and returns \<open>None\<close>.\<close>

definition swallow :: "(exn + place option) \<times> scraper \<Rightarrow> place option \<times> scraper" where
  "swallow r = (case r of (Inl e, s) \<Rightarrow> (None, s) | (Inr v, s) \<Rightarrow> (v, s))"

text \<open>
  \<open>LinkScraper.parse_place_details\<close>: the delay (whose bounds are looked up in
  \<open>TIMING\<close>), the wait for \<open>domcontentloaded\<close> whose exception is passed over, then the
  shared part.
\<close>

definition parse_place_details ::
  "geo \<Rightarrow> string \<Rightarrow> page \<Rightarrow> scraper \<Rightarrow> place option \<times> scraper" where
  "parse_place_details geodesic now pg s =
     swallow
       (case getitem TIMING ''item_parse_delay'' of
          Inl e \<Rightarrow> (Inl e, s)
        | Inr delay \<Rightarrow>
           (case wait_for_load_state pg ''domcontentloaded'' of
              Some e \<Rightarrow> parse_from_check geodesic now pg s
            | None \<Rightarrow> parse_from_check geodesic now pg s))"

text \<open>
  \<open>PlaceScraper.parse_place_details\<close>: the delay, then the wait for \<open>networkidle\<close> with
  the timeout looked up under \<open>'networkidle_timeout'\<close>; an exception of the wait is not
  caught before the outer handler.
\<close>

definition parse_place_details_kw ::
  "geo \<Rightarrow> string \<Rightarrow> page \<Rightarrow> scraper \<Rightarrow> place option \<times> scraper" where
  "parse_place_details_kw geodesic now pg s =
     swallow
       (case getitem TIMING ''item_parse_delay'' of
          Inl e \<Rightarrow> (Inl e, s)
        | Inr delay \<Rightarrow>
           (case getitem TIMING ''networkidle_timeout'' of
              Inl e \<Rightarrow> (Inl e, s)
            | Inr timeout \<Rightarrow>
               (case wait_for_load_state pg ''networkidle'' of
                  Some e \<Rightarrow> (Inl e, s)
                | None \<Rightarrow> parse_from_check geodesic now pg s)))"

section \<open>What the browser answers during a run\<close>

text \<open>
  The run is driven by the browser and the file system. Their answers are an input of
  the model. A \<open>visit\<close> is everything one pass of the per-item \<open>try\<close> body can observe:
  whether \<open>page.goto(link)\<close> raises, the page as loaded when the CAPTCHA check runs, the
  page as \<open>parse_place_details\<close> finds it, the clock readings for the record and for the
  resume file, the outcomes of the writes, and whether \<open>page.go_back\<close> raises.
\<close>

record visit =
  goto_error :: "exn option"
  loaded :: page
  parsing :: page
  clock :: string
  saved_at :: string
  writes :: io
  failed_write_ok :: bool
  go_back_error :: "exn option"

text \<open>
  The navigation at the start of a session: the outcome of the \<open>goto\<close> that resolves a
  short link and the URL the page has afterwards, the outcome of the first \<open>goto\<close> of the
  keyword search, the outcome of the \<open>goto\<close> of the target (a function of the URL), the
  page as landed, and whether waiting for a selector raises.
\<close>

record navigation =
  resolve_error :: "exn option"
  resolved_url :: string
  home_goto_error :: "exn option"
  goto_error_for :: "string \<Rightarrow> exn option"
  landed :: page
  wait_for_selector_error :: "string \<Rightarrow> exn option"

text \<open>
  One session attempt: whether setting up the browser raises, the navigation, the visit
  of a single place page, the elements found on a results page (the query may raise;
  each element has an \<open>href\<close> attribute, or none, or raises when asked), and the visits
  of the per-item loop, by position of the link and number of the retry.
\<close>

record session =
  setup_error :: "exn option"
  nav :: navigation
  single :: visit
  result_elements :: "exn + (exn + string option) list"
  visits :: "nat \<Rightarrow> nat \<Rightarrow> visit"

section \<open>LinkScraper (scraper\_by\_link.py)\<close>

definition detect_link_type :: "string \<Rightarrow> string" where
  "detect_link_type u =
     (if py_in ''/search/'' u \<or> py_in ''search?'' u then ''search''
      else if py_in ''/place/'' u then ''place''
      else if py_in ''goo.gl'' u \<or> py_in ''maps.app.goo.gl'' u then ''short''
      else ''unknown'')"

text \<open>\<open>resolve_short_link\<close>: the URL of the page after the \<open>goto\<close>, or the short URL itself
  when anything raises.\<close>

definition resolve_short_link :: "navigation \<Rightarrow> string \<Rightarrow> string" where
  "resolve_short_link nv short_url =
     (case getitem TIMING ''page_load_timeout'' of
        Inl e \<Rightarrow> short_url
      | Inr t \<Rightarrow> (case resolve_error nv of Some e \<Rightarrow> short_url | None \<Rightarrow> resolved_url nv))"

text \<open>\<open>navigate_to_link\<close>. Every exception inside is caught by the outer handler, which
  returns False.\<close>

definition navigate_to_link :: "string \<Rightarrow> navigation \<Rightarrow> bool" where
  "navigate_to_link maps_url nv =
     (let u0 = maps_url;
          t0 = detect_link_type u0;
          u1 = (if t0 = ''short'' then resolve_short_link nv u0 else u0);
          link_type = (if t0 = ''short'' then detect_link_type u1 else t0);
          u2 = (if \<not> py_in ''?hl='' u1 \<and> \<not> py_in ''&hl='' u1
                then u1 @ (if py_in ''?'' u1 then ''&'' else ''?'') @ ''hl=en''
                else u1)
      in case getitem TIMING ''page_load_timeout'' of
           Inl e \<Rightarrow> False
         | Inr t \<Rightarrow>
            (case goto_error_for nv u2 of
               Some e \<Rightarrow> False
             | None \<Rightarrow>
                if check_for_captcha (landed nv) then False
                else if link_type = ''search'' then
                  (case getitem SELECTORS ''results_container'' of
                     Inl e \<Rightarrow> False
                   | Inr sel \<Rightarrow>
                      (case wait_for_selector_error nv sel of Some e \<Rightarrow> False | None \<Rightarrow> True))
                else if link_type = ''place'' then
                  (case getitem SELECTORS ''place_name'' of
                     Inl e \<Rightarrow> False
                   | Inr sel \<Rightarrow>
                      (case wait_for_selector_error nv sel of Some e \<Rightarrow> False | None \<Rightarrow> True))
                else True))"

text \<open>The loop of \<open>collect_results\<close> over the result elements: an element whose attribute
  query raises is passed over; a link is kept when it is non-empty and contains
  \<open>/maps/place/\<close>.\<close>

fun collect_links :: "(exn + string option) list \<Rightarrow> string list" where
  "collect_links [] = []"
| "collect_links (Inl e # els) = collect_links els"
| "collect_links (Inr href # els) =
     (if truthy_str href \<and> py_in ''/maps/place/'' (the href)
      then the href # collect_links els
      else collect_links els)"

text \<open>\<open>collect_results\<close>. Scrolling swallows its exceptions and changes nothing the scraper
  keeps; an exception of the element query gives the empty list.\<close>

definition collect_results :: "session \<Rightarrow> string list" where
  "collect_results ss =
     (case getitem SELECTORS ''result_items'' of
        Inl e \<Rightarrow> []
      | Inr sel \<Rightarrow> (case result_elements ss of Inl e \<Rightarrow> [] | Inr els \<Rightarrow> collect_links els))"

text \<open>The three statements that follow a successful parse: save, append, count.\<close>

definition accept_place :: "visit \<Rightarrow> place \<Rightarrow> scraper \<Rightarrow> scraper" where
  "accept_place v p s =
     s\<lparr>saver := save_place (writes v) (saved_at v) p (saver s),
       scraped_places := scraped_places s @ [p],
       progress := increment_success (progress s)\<rparr>"

text \<open>
  One pass of the \<open>try\<close> body of the per-item retry loop. The result is the exception
  that left the body, if any, the value of \<open>place_data\<close> afterwards, and the state.
\<close>

definition visit_place ::
  "geo \<Rightarrow> visit \<Rightarrow> string \<Rightarrow> place option \<Rightarrow> scraper \<Rightarrow> exn option \<times> place option \<times> scraper" where
  "visit_place geodesic v link place_data s =
     (case getitem TIMING ''navigation_timeout'' of
        Inl e \<Rightarrow> (Some e, place_data, s)
      | Inr t \<Rightarrow>
         (let s0 = s\<lparr>visited := visited s @ [link]\<rparr>
          in case goto_error v of
               Some e \<Rightarrow> (Some e, place_data, s0)
             | None \<Rightarrow>
                if check_for_captcha (loaded v)
                then (Some ''CAPTCHA detected, rotating proxy'', place_data, s0)
                else
                  (case parse_place_details geodesic (clock v) (parsing v) s0 of
                     (None, s1) \<Rightarrow> (Some ''Failed to parse place data'', None, s1)
                   | (Some p, s1) \<Rightarrow>
                       (let s2 = accept_place v p s1
                        in case go_back_error v of
                             Some e \<Rightarrow> (Some e, Some p, s2)
                           | None \<Rightarrow> (None, Some p, s2)))))"

definition max_place_retry :: nat where
  "max_place_retry = 2"

text \<open>The \<open>if\<close> in the handler that decides whether the exception is raised again.\<close>

definition escalates :: "exn \<Rightarrow> bool" where
  "escalates error_msg = (py_in ''CAPTCHA'' error_msg \<or> py_in ''blocked'' (lower error_msg))"

text \<open>The two statements of the handler when the retries are used up.\<close>

definition give_up :: "visit \<Rightarrow> string \<Rightarrow> exn \<Rightarrow> scraper \<Rightarrow> scraper" where
  "give_up v link error_msg s =
     s\<lparr>saver := save_failed_url (failed_write_ok v) link error_msg (saver s),
       progress := increment_failed (progress s)\<rparr>"

text \<open>
  The \<open>while place_retry < max_place_retry and not place_data\<close> loop for one link. The
  result is the exception raised again by the handler, if any, and the state. The visits
  of the link are numbered by \<open>place_retry\<close>.
\<close>

function place_retry_loop ::
  "geo \<Rightarrow> (nat \<Rightarrow> visit) \<Rightarrow> string \<Rightarrow> nat \<Rightarrow> place option \<Rightarrow> scraper \<Rightarrow> exn option \<times> scraper" where
  "place_retry_loop geodesic vs link place_retry place_data s =
     (if place_retry < max_place_retry \<and> place_data = None then
        (case visit_place geodesic (vs place_retry) link place_data s of
           (None, pd, s') \<Rightarrow> place_retry_loop geodesic vs link place_retry pd s'
         | (Some error_msg, pd, s') \<Rightarrow>
             if place_retry + 1 \<ge> max_place_retry
             then (None, give_up (vs place_retry) link error_msg s')
             else if escalates error_msg then (Some error_msg, s')
             else place_retry_loop geodesic vs link (place_retry + 1) pd s')
      else (None, s))"
  by pat_completeness auto
termination
  apply (relation "measures [\<lambda>(g, vs, link, r, pd, s). max_place_retry - r,
                            \<lambda>(g, vs, link, r, pd, s). (if pd = None then 1 else 0)]")
    apply (auto simp: visit_place_def Let_def split: sum.splits option.splits prod.splits if_splits)
  done

text \<open>
  The \<open>for i, link in enumerate(result_links)\<close> loop, from position \<open>i\<close> on: it breaks
  when the number of accepted records has reached \<open>max_results\<close>, and is left by an
  exception that the retry loop raises again.
\<close>

fun process_links ::
  "geo \<Rightarrow> int \<Rightarrow> (nat \<Rightarrow> nat \<Rightarrow> visit) \<Rightarrow> nat \<Rightarrow> string list \<Rightarrow> scraper \<Rightarrow> exn option \<times> scraper" where
  "process_links geodesic max_results vss i [] s = (None, s)"
| "process_links geodesic max_results vss i (link # links) s =
     (if int (length (scraped_places s)) \<ge> max_results then (None, s)
      else
        (case place_retry_loop geodesic (vss i) link 0 None s of
           (Some e, s') \<Rightarrow> (Some e, s')
         | (None, s') \<Rightarrow> process_links geodesic max_results vss (Suc i) links s'))"

text \<open>The constructor arguments that the run reads.\<close>

record link_scraper_config =
  maps_url :: string
  max_results :: int

text \<open>
  The \<open>try\<close> body of one session attempt of \<open>scrape_with_retry\<close>: \<open>Inl\<close> the exception
  that left it, \<open>Inr\<close> the value it returned.
\<close>

definition run_session ::
  "link_scraper_config \<Rightarrow> geo \<Rightarrow> session \<Rightarrow> string set \<Rightarrow> scraper \<Rightarrow> (exn + place list) \<times> scraper" where
  "run_session cfg geodesic ss already_scraped s =
     (let (proxy, pm) = get_next_proxy (proxy_mgr s);
          s0 = s\<lparr>proxy_mgr := pm\<rparr>
      in case setup_error ss of
           Some e \<Rightarrow> (Inl e, s0)
         | None \<Rightarrow>
            if \<not> navigate_to_link (maps_url cfg) (nav ss)
            then (Inl ''Navigation failed or blocked'', s0)
            else
              (let link_type = detect_link_type (url (landed (nav ss)))
               in if link_type = ''place'' then
                    (if url (landed (nav ss)) \<in> already_scraped then (Inr (scraped_places s0), s0)
                     else
                       (case parse_place_details geodesic (clock (single ss)) (parsing (single ss)) s0 of
                          (Some p, s1) \<Rightarrow>
                            (let s2 = accept_place (single ss) p s1 in (Inr (scraped_places s2), s2))
                        | (None, s1) \<Rightarrow> (Inr (scraped_places s1), s1)))
                  else if link_type = ''search'' then
                    (let result_links = collect_results ss
                     in if result_links = [] then (Inl ''No results found'', s0)
                        else
                          (case process_links geodesic (max_results cfg) (visits ss) 0
                                  (filter (\<lambda>link. link \<notin> already_scraped) result_links) s0 of
                             (Some e, s1) \<Rightarrow> (Inl e, s1)
                           | (None, s1) \<Rightarrow> (Inr (scraped_places s1), s1)))
                  else (Inr (scraped_places s0), s0)))"

text \<open>
  The \<open>while retry_count < max_retries\<close> loop. A session attempt that returns ends the
  run with its value; one that raises is counted, and the loop goes on. The sessions
  are numbered by \<open>retry_count\<close>. After the loop the records accepted so far are
  returned.
\<close>

function retry_loop ::
  "link_scraper_config \<Rightarrow> geo \<Rightarrow> (nat \<Rightarrow> session) \<Rightarrow> int \<Rightarrow> nat \<Rightarrow> string set \<Rightarrow> scraper
     \<Rightarrow> place list \<times> scraper" where
  "retry_loop cfg geodesic sessions max_retries retry_count already_scraped s =
     (if int retry_count < max_retries then
        (case run_session cfg geodesic (sessions retry_count) already_scraped s of
           (Inr result, s') \<Rightarrow> (result, s'\<lparr>attempts := attempts s' @ [None]\<rparr>)
         | (Inl e, s') \<Rightarrow>
             retry_loop cfg geodesic sessions max_retries (retry_count + 1) already_scraped
               (s'\<lparr>attempts := attempts s' @ [Some e]\<rparr>))
      else (scraped_places s, s))"
  by pat_completeness auto
termination
  by (relation "measure (\<lambda>(cfg, g, ss, m, r, a, s). nat (m - int r))") auto


section \<open>PlaceScraper (scraper.py)\<close>

text \<open>The constructor arguments that the run reads; \<open>quote_plus\<close> is the URL quoting
  function of the standard library, a parameter of the model.\<close>

record place_scraper_config =
  keyword :: string
  location :: string
  kw_max_results :: int
  quote_plus :: "string \<Rightarrow> string"

text \<open>\<open>search_google_maps\<close>. Every exception inside is caught by the outer handler, which
  returns False.\<close>

definition search_google_maps :: "place_scraper_config \<Rightarrow> navigation \<Rightarrow> bool" where
  "search_google_maps cfg nv =
     (case getitem TIMING ''page_load_timeout'' of
        Inl e \<Rightarrow> False
      | Inr t \<Rightarrow>
         (case home_goto_error nv of
            Some e \<Rightarrow> False
          | None \<Rightarrow>
             (let search_query = keyword cfg @ '' in '' @ location cfg;
                  u = ''https://www.google.com/maps/search/'' @ quote_plus cfg search_query @ ''?hl=en''
              in case goto_error_for nv u of
                   Some e \<Rightarrow> False
                 | None \<Rightarrow>
                    if check_for_captcha (landed nv) then False
                    else
                      (case getitem SELECTORS ''results_container'' of
                         Inl e \<Rightarrow> False
                       | Inr sel \<Rightarrow>
                          (case wait_for_selector_error nv sel of
                             Some e \<Rightarrow> False
                           | None \<Rightarrow> True)))))"

text \<open>The slice \<open>xs[:n]\<close>: a negative \<open>n\<close> counts from the end.\<close>

definition slice_to :: "int \<Rightarrow> 'a list \<Rightarrow> 'a list" where
  "slice_to n xs = (if n \<ge> 0 then take (nat n) xs else take (nat (int (length xs) + n)) xs)"

text \<open>\<open>collect_results\<close> of the keyword scraper looks at the first \<open>max_results * 2\<close>
  elements only.\<close>

definition collect_results_kw :: "place_scraper_config \<Rightarrow> session \<Rightarrow> string list" where
  "collect_results_kw cfg ss =
     (case getitem SELECTORS ''result_items'' of
        Inl e \<Rightarrow> []
      | Inr sel \<Rightarrow>
         (case result_elements ss of
            Inl e \<Rightarrow> []
          | Inr els \<Rightarrow> collect_links (slice_to (kw_max_results cfg * 2) els)))"

text \<open>One pass of the \<open>try\<close> body of the per-item loop: the exception that left it, if any,
  and the state.\<close>

definition visit_place_kw :: "geo \<Rightarrow> visit \<Rightarrow> string \<Rightarrow> scraper \<Rightarrow> exn option \<times> scraper" where
  "visit_place_kw geodesic v link s =
     (case getitem TIMING ''navigation_timeout'' of
        Inl e \<Rightarrow> (Some e, s)
      | Inr t \<Rightarrow>
         (let s0 = s\<lparr>visited := visited s @ [link]\<rparr>
          in case goto_error v of
               Some e \<Rightarrow> (Some e, s0)
             | None \<Rightarrow>
                if check_for_captcha (loaded v)
                then (Some ''CAPTCHA detected, rotating proxy'', s0)
                else
                  (let (place_data, s1) = parse_place_details_kw geodesic (clock v) (parsing v) s0;
                       s2 = (case place_data of
                               None \<Rightarrow> s1
                             | Some p \<Rightarrow> s1\<lparr>scraped_places := scraped_places s1 @ [p]\<rparr>)
                   in case go_back_error v of
                        Some e \<Rightarrow> (Some e, s2)
                      | None \<Rightarrow> (None, s2))))"

text \<open>The per-item loop of the keyword scraper: an exception whose message contains
  \<open>CAPTCHA\<close> is raised again, any other one is logged and the loop continues.\<close>

fun process_links_kw ::
  "geo \<Rightarrow> int \<Rightarrow> (nat \<Rightarrow> nat \<Rightarrow> visit) \<Rightarrow> nat \<Rightarrow> string list \<Rightarrow> scraper \<Rightarrow> exn option \<times> scraper" where
  "process_links_kw geodesic max_res vss i [] s = (None, s)"
| "process_links_kw geodesic max_res vss i (link # links) s =
     (if int (length (scraped_places s)) \<ge> max_res then (None, s)
      else
        (case visit_place_kw geodesic (vss i 0) link s of
           (Some e, s') \<Rightarrow>
             if py_in ''CAPTCHA'' e then (Some e, s')
             else process_links_kw geodesic max_res vss (Suc i) links s'
         | (None, s') \<Rightarrow> process_links_kw geodesic max_res vss (Suc i) links s'))"

definition run_session_kw ::
  "place_scraper_config \<Rightarrow> geo \<Rightarrow> session \<Rightarrow> scraper \<Rightarrow> (exn + place list) \<times> scraper" where
  "run_session_kw cfg geodesic ss s =
     (let (proxy, pm) = get_next_proxy (proxy_mgr s);
          s0 = s\<lparr>proxy_mgr := pm\<rparr>
      in case setup_error ss of
           Some e \<Rightarrow> (Inl e, s0)
         | None \<Rightarrow>
            if \<not> search_google_maps cfg (nav ss) then (Inl ''Search failed or blocked'', s0)
            else
              (let result_links = collect_results_kw cfg ss
               in if result_links = [] then (Inl ''No results found'', s0)
                  else
                    (case process_links_kw geodesic (kw_max_results cfg) (visits ss) 0 result_links s0 of
                       (Some e, s1) \<Rightarrow> (Inl e, s1)
                     | (None, s1) \<Rightarrow> (Inr (scraped_places s1), s1))))"

function retry_loop_kw ::
  "place_scraper_config \<Rightarrow> geo \<Rightarrow> (nat \<Rightarrow> session) \<Rightarrow> int \<Rightarrow> nat \<Rightarrow> scraper \<Rightarrow> place list \<times> scraper" where
  "retry_loop_kw cfg geodesic sessions max_retries retry_count s =
     (if int retry_count < max_retries then
        (case run_session_kw cfg geodesic (sessions retry_count) s of
           (Inr result, s') \<Rightarrow> (result, s'\<lparr>attempts := attempts s' @ [None]\<rparr>)
         | (Inl e, s') \<Rightarrow>
             retry_loop_kw cfg geodesic sessions max_retries (retry_count + 1)
               (s'\<lparr>attempts := attempts s' @ [Some e]\<rparr>))
      else (scraped_places s, s))"
  by pat_completeness auto
termination
  by (relation "measure (\<lambda>(cfg, g, ss, m, r, s). nat (m - int r))") auto

text \<open>\<open>PlaceScraper.scrape_with_retry\<close>.\<close>

definition scrape_with_retry_kw ::
  "place_scraper_config \<Rightarrow> geo \<Rightarrow> (nat \<Rightarrow> session) \<Rightarrow> int \<Rightarrow> scraper \<Rightarrow> place list \<times> scraper" where
  "scrape_with_retry_kw cfg geodesic sessions max_retries s =
     retry_loop_kw cfg geodesic sessions max_retries 0 s"

section \<open>Concrete inputs\<close>

text \<open>A page showing an interstitial that asks the visitor to prove being human, with no
  CAPTCHA frame in it.\<close>

definition interstitial_page :: page where
  "interstitial_page =
     \<lparr>url = ''https://www.google.com/maps/blocked'',
      query_selector = (\<lambda>sel. Inr False),
      content = Inr ''<p>Please Verify You are human</p>'',
      wait_for_load_state = (\<lambda>st. None),
      extract_text = (\<lambda>sel. None),
      extract_attribute = (\<lambda>sel attr. None),
      extract_coordinates = (None, None),
      menu_website = Inr None,
      found_emails = (\<lambda>site. None), found_rating = None,
      found_hours = None, found_price = None\<rparr>"

definition cafe_record :: place where
  "cafe_record =
     \<lparr>name = ''Cafe Uno'', address = None, latitude = Some 25.76, longitude = Some (-80.19),
      phone = None, email = None, website = None,
      google_maps_url = ''https://www.google.com/maps/place/Cafe+Uno'',
      category = None, rating = None, hours = None, price_level = None,
      business_status = None, scraped_at = ''2024-01-01T10:00:00''\<rparr>"

definition all_written :: io where
  "all_written = \<lparr>csv_ok = True, jsonl_ok = True, resume_ok = True\<rparr>"

definition streams_fail :: io where
  "streams_fail = \<lparr>csv_ok = False, jsonl_ok = False, resume_ok = True\<rparr>"

definition resume_fails :: io where
  "resume_fails = \<lparr>csv_ok = True, jsonl_ok = True, resume_ok = False\<rparr>"

text \<open>A scraper that has accepted nothing yet.\<close>

definition new_scraper :: scraper where
  "new_scraper =
     \<lparr>scraped_places = [], seen_places = {}, saver = init_ledger,
      progress = \<lparr>total = 70, success = 0, failed = 0, current = 0\<rparr>,
      proxy_mgr = \<lparr>proxies = [], current_index = 0\<rparr>,
      visited = [], attempts = []\<rparr>"

text \<open>A record of a place on the equator, and a scraper that has accepted it: its name is
  registered and the record is in the list.\<close>

definition equator_record :: place where
  "equator_record =
     \<lparr>name = ''Mitad del Mundo'', address = None, latitude = Some 0, longitude = Some (-78.4558),
      phone = None, email = None, website = None,
      google_maps_url = ''https://www.google.com/maps/place/Mitad+del+Mundo/@0,-78.4558,17z'',
      category = None, rating = None, hours = None, price_level = None,
      business_status = None, scraped_at = ''2024-01-01T10:00:00''\<rparr>"

definition after_equator :: scraper where
  "after_equator =
     new_scraper\<lparr>scraped_places := [equator_record], seen_places := {''Mitad del Mundo''}\<rparr>"

text \<open>The same for a record 0.0001 degrees (about 11 meters) north of the equator.\<close>

definition near_equator_record :: place where
  "near_equator_record =
     \<lparr>name = ''Mitad del Mundo'', address = None, latitude = Some 0.0001,
      longitude = Some (-78.4558), phone = None, email = None, website = None,
      google_maps_url = ''https://www.google.com/maps/place/Mitad+del+Mundo/@0.0001,-78.4558,17z'',
      category = None, rating = None, hours = None, price_level = None,
      business_status = None, scraped_at = ''2024-01-01T10:00:00''\<rparr>"

definition after_near_equator :: scraper where
  "after_near_equator =
     new_scraper\<lparr>scraped_places := [near_equator_record], seen_places := {''Mitad del Mundo''}\<rparr>"

definition after_cafe :: scraper where
  "after_cafe = new_scraper\<lparr>scraped_places := [cafe_record], seen_places := {''Cafe Uno''}\<rparr>"

text \<open>A distance function for the examples: zero between equal points, 25 meters between
  the cafe and the point given for the bar, 1000 meters otherwise.\<close>

definition demo_geodesic :: geo where
  "demo_geodesic a b =
     (if a = b then 0
      else if a = (25.7602, -80.19) \<and> b = (25.76, -80.19) then 25
      else 1000)"

text \<open>A session whose navigation lands on the interstitial page: the browser starts, every
  \<open>goto\<close> works, and the page that comes up is the block page.\<close>

definition idle_visit :: visit where
  "idle_visit =
     \<lparr>goto_error = None, loaded = interstitial_page, parsing = interstitial_page,
      clock = ''2024-01-01T10:00:00'', saved_at = ''2024-01-01T10:00:01'',
      writes = all_written, failed_write_ok = True, go_back_error = None\<rparr>"




text \<open>A results page with five listings. Each listing page shows its name and no
  coordinates; every \<open>goto\<close> and every write works.\<close>

definition listing_page :: "string \<Rightarrow> string \<Rightarrow> page" where
  "listing_page nm u =
     \<lparr>url = u,
      query_selector = (\<lambda>sel. Inr False),
      content = Inr ''<h1>open now</h1>'',
      wait_for_load_state = (\<lambda>st. None),
      extract_text = (\<lambda>sel. if sel = ''h1.DUwDvf, h1.fontHeadlineLarge'' then Some nm else None),
      extract_attribute = (\<lambda>sel attr. None),
      extract_coordinates = (None, None),
      menu_website = Inr None,
      found_emails = (\<lambda>site. None), found_rating = None,
      found_hours = None, found_price = None\<rparr>"

definition listing_visit :: "string \<Rightarrow> string \<Rightarrow> visit" where
  "listing_visit nm u =
     \<lparr>goto_error = None, loaded = listing_page nm u, parsing = listing_page nm u,
      clock = ''2024-01-01T10:00:00'', saved_at = ''2024-01-01T10:00:01'',
      writes = all_written, failed_write_ok = True, go_back_error = None\<rparr>"

definition listing_record :: "string \<Rightarrow> string \<Rightarrow> place" where
  "listing_record nm u =
     \<lparr>name = nm, address = None, latitude = None, longitude = None, phone = None,
      email = None, website = None, google_maps_url = u, category = None, rating = None,
      hours = None, price_level = None, business_status = None,
      scraped_at = ''2024-01-01T10:00:00''\<rparr>"

definition five_listings :: "(string \<times> string) list" where
  "five_listings =
     [(''Cafe A'', ''https://www.google.com/maps/place/Cafe+A''),
      (''Cafe B'', ''https://www.google.com/maps/place/Cafe+B''),
      (''Cafe C'', ''https://www.google.com/maps/place/Cafe+C''),
      (''Cafe D'', ''https://www.google.com/maps/place/Cafe+D''),
      (''Cafe E'', ''https://www.google.com/maps/place/Cafe+E'')]"

definition five_visits :: "nat \<Rightarrow> nat \<Rightarrow> visit" where
  "five_visits i r =
     (if i < length five_listings
      then listing_visit (fst (five_listings ! i)) (snd (five_listings ! i))
      else idle_visit)"

text \<open>A link whose first fetch times out and whose second fetch lands on the block page.\<close>

definition timeout_visit :: visit where
  "timeout_visit = idle_visit\<lparr>goto_error := Some ''Timeout 30000ms exceeded.''\<rparr>"

definition timeout_then_blocked :: "nat \<Rightarrow> visit" where
  "timeout_then_blocked r = (if r = 0 then timeout_visit else idle_visit)"

text \<open>A fetch after which the page is clean when the loop checks it and shows the block
  page once \<open>parse_place_details\<close> looks at it.\<close>

definition blocked_while_parsing :: visit where
  "blocked_while_parsing =
     idle_visit\<lparr>loaded := listing_page ''Cafe A'' ''https://www.google.com/maps/place/Cafe+A''\<rparr>"

lemma getitem_captcha_indicator: "getitem SELECTORS ''captcha_indicator'' = Inr captcha_indicator"
  by (simp add: getitem_def SELECTORS_def captcha_indicator_def)

lemma lower_append: "lower (a @ b) = lower a @ lower b"
  by (simp add: lower_def)

lemma lower_split:
  "lower t = p @ q \<Longrightarrow> \<exists>a b. t = a @ b \<and> lower a = p \<and> lower b = q"
  unfolding lower_def
  by (metis append_eq_map_conv)

lemma py_in_lower_iff:
  "py_in (lower phrase) (lower text) = contains_ignoring_case text phrase"
proof
  assume "py_in (lower phrase) (lower text)"
  then obtain ps ss where "lower text = ps @ lower phrase @ ss"
    by (auto simp: py_in_def sublist_def)
  then obtain a r where ar: "text = a @ r" "lower a = ps" "lower r = lower phrase @ ss"
    using lower_split by blast
  then obtain b c where "r = b @ c" "lower b = lower phrase" "lower c = ss"
    using lower_split by blast
  with ar show "contains_ignoring_case text phrase"
    unfolding contains_ignoring_case_def by blast
next
  assume "contains_ignoring_case text phrase"
  then obtain a b c where "text = a @ b @ c" "lower b = lower phrase"
    unfolding contains_ignoring_case_def by blast
  then have "lower text = lower a @ lower phrase @ lower c"
    by (simp add: lower_append)
  then show "py_in (lower phrase) (lower text)"
    by (auto simp: py_in_def sublist_def)
qed

lemma lower_blocking_keywords: "map lower blocking_keywords = blocking_keywords"
  by (simp add: blocking_keywords_def lower_def lower_char_def)

section \<open>CaptchaGuard\<close>

text \<open>
  Claim C9. For a page on which the marker query and the content fetch both succeed,
  \<open>check_for_captcha\<close> answers True exactly when the marker element (the
  \<open>captcha_indicator\<close> selector) is present or the content contains, ignoring case, one of
  the phrases "unusual traffic", "automated requests", "verify you", "not a robot". The
  function takes the page and returns a truth value: it has no state to modify.
\<close>

theorem check_for_captcha_decision_rule:
  assumes "query_selector pg captcha_indicator = Inr marker"
    and "content pg = Inr markup"
  shows "check_for_captcha pg =
           (marker \<or> (\<exists>phrase \<in> {''unusual traffic'', ''automated requests'', ''verify you'',
                                  ''not a robot''}. contains_ignoring_case markup phrase))"
proof -
  have kw: "\<And>k. k \<in> set blocking_keywords \<Longrightarrow> py_in k (lower markup) = contains_ignoring_case markup k"
  proof -
    fix k assume "k \<in> set blocking_keywords"
    then have "lower k = k"
      using lower_blocking_keywords by (metis map_eq_conv map_ident)
    then show "py_in k (lower markup) = contains_ignoring_case markup k"
      using py_in_lower_iff [of k markup] by simp
  qed
  have "list_ex (\<lambda>k. py_in k (lower markup)) blocking_keywords
          = (\<exists>k \<in> set blocking_keywords. contains_ignoring_case markup k)"
    using kw by (auto simp: list_ex_iff)
  moreover have "set blocking_keywords = {''unusual traffic'', ''automated requests'',
      ''verify you'', ''not a robot''}"
    by (simp add: blocking_keywords_def)
  ultimately show ?thesis
    using assms by (simp add: check_for_captcha_def getitem_captcha_indicator)
qed

theorem check_for_captcha_decision_rule_witness:
  "query_selector interstitial_page captcha_indicator = Inr False
   \<and> content interstitial_page = Inr ''<p>Please Verify You are human</p>''
   \<and> check_for_captcha interstitial_page =
        (False \<or> (\<exists>phrase \<in> {''unusual traffic'', ''automated requests'', ''verify you'',
                   ''not a robot''}.
                     contains_ignoring_case ''<p>Please Verify You are human</p>'' phrase))"
proof -
  have q: "query_selector interstitial_page captcha_indicator = Inr False"
    by (simp add: interstitial_page_def)
  have c: "content interstitial_page = Inr ''<p>Please Verify You are human</p>''"
    by (simp add: interstitial_page_def)
  show ?thesis
    using check_for_captcha_decision_rule [OF q c] q c by blast
qed

lemma interstitial_page_blocked: "check_for_captcha interstitial_page"
  by code_simp

section \<open>PersistenceLedger\<close>

lemma lines_of_simps [simp]: "lines_of None = []" "lines_of (Some ls) = ls"
  by (simp_all add: lines_of_def)

lemma scraped_urls_save_place:
  "scraped_urls (save_place w now p s) = insert (google_maps_url p) (scraped_urls s)"
  by (simp add: save_place_def save_resume_state_def Let_def)

lemma recorded_save_place:
  "recorded u (files (save_place w now p s))
     = (recorded u (files s) \<or> ((csv_ok w \<or> jsonl_ok w) \<and> google_maps_url p = u))"
  by (auto simp: save_place_def save_resume_state_def Let_def recorded_def write_csv_def
      write_jsonl_def)

lemma scraped_urls_save_failed_url:
  "scraped_urls (save_failed_url ok u err s) = scraped_urls s"
  by (simp add: save_failed_url_def)

lemma recorded_save_failed_url:
  "recorded v (files (save_failed_url ok u err s)) = recorded v (files s)"
  by (simp add: save_failed_url_def recorded_def)

lemma run_keeps_ledger_correspondence:
  assumes "\<forall>c \<in> set cs. stream_written c"
    and "\<And>u. u \<in> scraped_urls s \<longleftrightarrow> recorded u (files s)"
  shows "u \<in> scraped_urls (run cs s) \<longleftrightarrow> recorded u (files (run cs s))"
  using assms
proof (induction cs arbitrary: s)
  case Nil
  then show ?case by simp
next
  case (Cons c cs)
  have step: "\<And>v. v \<in> scraped_urls (call c s) \<longleftrightarrow> recorded v (files (call c s))"
  proof (cases c)
    case (SavePlace w now p)
    with Cons.prems show "\<And>v. v \<in> scraped_urls (call c s) \<longleftrightarrow> recorded v (files (call c s))"
      by (auto simp: scraped_urls_save_place recorded_save_place)
  next
    case (SaveFailedUrl ok v' err)
    with Cons.prems show "\<And>v. v \<in> scraped_urls (call c s) \<longleftrightarrow> recorded v (files (call c s))"
      by (simp add: scraped_urls_save_failed_url recorded_save_failed_url)
  qed
  from Cons.prems have "\<forall>c \<in> set cs. stream_written c" by simp
  from Cons.IH [OF this step] show ?case by simp
qed

text \<open>
  Claim C1, as the specification states it: in every state of the saver, an identifier
  is in the processed set exactly when a record or a failure entry for it has been
  written. It fails after a \<open>save_place\<close> call whose two stream writes both raise: the
  exceptions are swallowed and the URL is added to the set all the same.
\<close>

theorem ledger_invariant_counterexample:
  "\<not> ledger_invariant (run [SavePlace streams_fail ''2024-01-01T10:00:01'' cafe_record] init_ledger)"
proof
  assume "ledger_invariant (run [SavePlace streams_fail ''2024-01-01T10:00:01'' cafe_record] init_ledger)"
  then have "google_maps_url cafe_record
               \<in> scraped_urls (save_place streams_fail ''2024-01-01T10:00:01'' cafe_record init_ledger)
             \<longleftrightarrow> (recorded (google_maps_url cafe_record)
                    (files (save_place streams_fail ''2024-01-01T10:00:01'' cafe_record init_ledger))
                 \<or> failure_logged (google_maps_url cafe_record)
                    (files (save_place streams_fail ''2024-01-01T10:00:01'' cafe_record init_ledger)))"
    unfolding ledger_invariant_def by simp
  then show False
    by (simp add: scraped_urls_save_place recorded_save_place streams_fail_def
        failure_logged_def save_place_def save_resume_state_def init_ledger_def empty_disk_def
        recorded_def Let_def)
qed

text \<open>
  Claim C1, amended. In every state reached from a new saver by \<open>save_place\<close> and
  \<open>save_failed_url\<close> calls in which each \<open>save_place\<close> got its record into at least one
  of the two output streams, an identifier is in the processed set exactly when a record
  carrying it has been written to an output stream. Entries of the failure log play no
  part.
\<close>

theorem ledger_correspondence:
  assumes "\<forall>c \<in> set cs. stream_written c"
  shows "u \<in> scraped_urls (run cs init_ledger) \<longleftrightarrow> recorded u (files (run cs init_ledger))"
proof (rule run_keeps_ledger_correspondence [OF assms])
  fix v
  show "v \<in> scraped_urls init_ledger \<longleftrightarrow> recorded v (files init_ledger)"
    by (simp add: init_ledger_def empty_disk_def recorded_def)
qed

theorem ledger_correspondence_witness:
  "stream_written (SavePlace all_written ''2024-01-01T10:00:01'' cafe_record)
   \<and> stream_written (SaveFailedUrl True ''https://www.google.com/maps/place/Bar''
         ''Failed to parse place data'')
   \<and> google_maps_url cafe_record
       \<in> scraped_urls (run [SavePlace all_written ''2024-01-01T10:00:01'' cafe_record,
            SaveFailedUrl True ''https://www.google.com/maps/place/Bar'' ''Failed to parse place data'']
            init_ledger)
   \<and> recorded (google_maps_url cafe_record)
       (files (run [SavePlace all_written ''2024-01-01T10:00:01'' cafe_record,
            SaveFailedUrl True ''https://www.google.com/maps/place/Bar'' ''Failed to parse place data'']
            init_ledger))"
proof -
  let ?cs = "[SavePlace all_written ''2024-01-01T10:00:01'' cafe_record,
               SaveFailedUrl True ''https://www.google.com/maps/place/Bar'' ''Failed to parse place data'']"
  have h: "\<forall>c \<in> set ?cs. stream_written c"
    by (simp add: all_written_def)
  have m: "google_maps_url cafe_record \<in> scraped_urls (run ?cs init_ledger)"
    by (simp add: scraped_urls_save_place scraped_urls_save_failed_url)
  from ledger_correspondence [OF h, of "google_maps_url cafe_record"] h m
  show ?thesis by simp
qed

text \<open>
  Claim C3, as the specification states it: after \<open>save_place\<close> returns for a record, a
  new saver over the same files loads a resume set that contains the record's URL. It
  fails when the write of the resume file raises: \<open>save_resume_state\<close> swallows the
  exception, \<open>save_place\<close> returns, and the file does not hold the URL.
\<close>

theorem resume_round_trip_counterexample:
  "google_maps_url cafe_record
     \<notin> load_resume_state True
         (fresh_instance (files (save_place resume_fails ''2024-01-01T10:00:01'' cafe_record init_ledger)))"
  by (simp add: load_resume_state_def fresh_instance_def save_place_def save_resume_state_def
      resume_fails_def init_ledger_def empty_disk_def write_csv_def write_jsonl_def Let_def)

text \<open>
  Claim C3, amended. When the write of the resume file made by \<open>save_place\<close> succeeds and
  the file can be read back, a new saver over the same files loads a resume set that
  contains the record's \<open>google_maps_url\<close>, whatever the state of the saver before the call
  and whatever became of the two stream writes.
\<close>

theorem resume_round_trip:
  assumes "resume_ok w" and "readable"
  shows "google_maps_url p
           \<in> load_resume_state readable (fresh_instance (files (save_place w now p s)))"
  using assms
  by (simp add: load_resume_state_def fresh_instance_def save_place_def save_resume_state_def
      Let_def)

theorem resume_round_trip_witness:
  "resume_ok all_written
   \<and> google_maps_url cafe_record
       \<in> load_resume_state True
           (fresh_instance (files (save_place all_written ''2024-01-01T10:00:01'' cafe_record init_ledger)))"
proof -
  have h: "resume_ok all_written" by (simp add: all_written_def)
  from resume_round_trip [OF h, of True cafe_record "''2024-01-01T10:00:01''" init_ledger] h
  show ?thesis by simp
qed




section \<open>Deduplicator\<close>

lemma scan_places_iff:
  "scan_places g nm lat lon ps \<longleftrightarrow>
     (\<exists>p \<in> set ps. name p = nm \<or>
        (truthy_float (latitude p) \<and> truthy_float (longitude p)
         \<and> g (lat, lon) (the (latitude p), the (longitude p)) < GEO_TOLERANCE_METERS))"
  by (induction ps) auto

text \<open>
  What the geo scan does for a candidate whose two coordinates are present and non-zero:
  a new, non-empty name is a duplicate exactly when some accepted record has the same
  name, or has non-zero coordinates less than 25 meters away.
\<close>

lemma is_duplicate_geo_scan:
  assumes "nm \<noteq> []" and "nm \<notin> seen_places s" and "lat \<noteq> 0" and "lon \<noteq> 0"
  shows "fst (is_duplicate g nm (Some lat) (Some lon) s) \<longleftrightarrow>
           (\<exists>p \<in> set (scraped_places s). name p = nm \<or>
              (truthy_float (latitude p) \<and> truthy_float (longitude p)
               \<and> g (lat, lon) (the (latitude p), the (longitude p)) < 25))"
  using assms
  by (simp add: is_duplicate_def truthy_float_def scan_places_iff GEO_TOLERANCE_METERS_def)

text \<open>
  Claim C4 (the code departs from it). A candidate with a new, non-empty name that has
  both coordinates is to be compared with every accepted record that has coordinates,
  and classified as duplicate when one of them is within 25 meters. The guard
  \<open>if lat and lon\<close> takes a coordinate of 0.0 for a missing one: a candidate on the equator
  skips the scan. Here the accepted record lies about 11 meters north of the candidate;
  the candidate is accepted whatever the distance function answers.
\<close>

theorem is_duplicate_zero_latitude_skips_scan:
  "fst (is_duplicate g ''Museo Intinan'' (Some 0) (Some (-78.4558)) after_near_equator) = False"
  by (simp add: is_duplicate_def truthy_float_def after_near_equator_def new_scraper_def)

text \<open>
  Claim C5 (the code departs from it). Two submissions with distinct non-empty names,
  both with coordinates, the first accepted: the second is to be rejected when it lies
  less than 25 meters from the first. With the first record on the equator, the stored
  latitude 0.0 is falsy, the distance is never computed, and a second place at the same
  point is accepted, for every distance function.
\<close>

theorem is_duplicate_same_point_on_equator_accepted:
  "fst (is_duplicate g ''Mitad del Mundo'' (Some 0) (Some (-78.4558)) new_scraper) = False
   \<and> fst (is_duplicate g ''Museo Intinan'' (Some 0) (Some (-78.4558)) after_equator) = False"
  by (simp add: is_duplicate_def truthy_float_def after_equator_def new_scraper_def)

text \<open>
  Away from zero coordinates the boundary behaves as the specification says: from a
  scraper that has accepted one record with non-zero coordinates, a second submission
  with another non-empty name and non-zero coordinates is rejected when the distance is
  less than 25 meters, and accepted when it is exactly 25 meters.
\<close>

lemma is_duplicate_boundary:
  assumes "nm \<noteq> []" and "nm \<noteq> name p" and "lat \<noteq> 0" and "lon \<noteq> 0"
    and "latitude p = Some plat" and "longitude p = Some plon" and "plat \<noteq> 0" and "plon \<noteq> 0"
    and "scraped_places s = [p]" and "seen_places s = {name p}"
  shows "(g (lat, lon) (plat, plon) < 25 \<longrightarrow> fst (is_duplicate g nm (Some lat) (Some lon) s))
       \<and> (g (lat, lon) (plat, plon) = 25 \<longrightarrow> \<not> fst (is_duplicate g nm (Some lat) (Some lon) s))"
  using assms
  by (simp add: is_duplicate_def truthy_float_def GEO_TOLERANCE_METERS_def)

lemma is_duplicate_boundary_example:
  "fst (is_duplicate demo_geodesic ''Bar Dos'' (Some 25.76) (Some (-80.19)) after_cafe)
   \<and> \<not> fst (is_duplicate demo_geodesic ''Bar Dos'' (Some 25.7602) (Some (-80.19)) after_cafe)"
  by (simp add: is_duplicate_def truthy_float_def GEO_TOLERANCE_METERS_def after_cafe_def
      new_scraper_def cafe_record_def demo_geodesic_def)

section \<open>Keyword-search mode\<close>

lemma networkidle_timeout_missing:
  "getitem TIMING ''networkidle_timeout'' = Inl ([CHR 0x27] @ ''networkidle_timeout'' @ [CHR 0x27])"
  by (simp add: getitem_def TIMING_def)

lemma parse_place_details_kw_None: "parse_place_details_kw g now pg s = (None, s)"
  by (simp add: parse_place_details_kw_def networkidle_timeout_missing swallow_def
      split: sum.splits)

lemma visit_place_kw_scraped_places:
  "scraped_places (snd (visit_place_kw g v link s)) = scraped_places s"
  by (simp add: visit_place_kw_def parse_place_details_kw_None Let_def
      split: sum.splits option.splits)

lemma process_links_kw_scraped_places:
  "scraped_places (snd (process_links_kw g m vss i links s)) = scraped_places s"
proof (induction links arbitrary: i s)
  case Nil
  then show ?case by simp
next
  case (Cons link links)
  show ?case
  proof (cases "visit_place_kw g (vss i 0) link s")
    case (Pair r s')
    then have "scraped_places s' = scraped_places s"
      using visit_place_kw_scraped_places [of g "vss i 0" link s] by simp
    with Pair Cons.IH [of "Suc i" s'] show ?thesis
      by (simp split: option.splits)
  qed
qed

lemma run_session_kw_scraped_places:
  "scraped_places (snd (run_session_kw cfg g ss s)) = scraped_places s"
  "fst (run_session_kw cfg g ss s) = Inr r \<Longrightarrow> r = scraped_places s"
proof -
  obtain r1 s1 where p: "process_links_kw g (kw_max_results cfg) (visits ss) 0
      (collect_results_kw cfg ss) (s\<lparr>proxy_mgr := snd (get_next_proxy (proxy_mgr s))\<rparr>) = (r1, s1)"
    by (cases "process_links_kw g (kw_max_results cfg) (visits ss) 0
      (collect_results_kw cfg ss) (s\<lparr>proxy_mgr := snd (get_next_proxy (proxy_mgr s))\<rparr>)") simp
  then have k: "scraped_places s1 = scraped_places s"
    using process_links_kw_scraped_places [of g "kw_max_results cfg" "visits ss" 0
        "collect_results_kw cfg ss" "s\<lparr>proxy_mgr := snd (get_next_proxy (proxy_mgr s))\<rparr>"]
    by simp
  show "scraped_places (snd (run_session_kw cfg g ss s)) = scraped_places s"
    using p k
    by (simp add: run_session_kw_def Let_def split_beta split: option.splits)
  show "fst (run_session_kw cfg g ss s) = Inr r \<Longrightarrow> r = scraped_places s"
    using p k
    by (auto simp: run_session_kw_def Let_def split_beta split: option.splits if_splits)
qed

lemma retry_loop_kw_scraped_places:
  "fst (retry_loop_kw cfg g sessions m r s) = scraped_places s
   \<and> scraped_places (snd (retry_loop_kw cfg g sessions m r s)) = scraped_places s"
proof (induction cfg g sessions m r s rule: retry_loop_kw.induct)
  case (1 cfg g sessions m r s)
  show ?case
  proof (cases "int r < m")
    case False
    then show ?thesis by simp
  next
    case True
    show ?thesis
    proof (cases "run_session_kw cfg g (sessions r) s")
      case (Pair res s')
      then have k: "scraped_places s' = scraped_places s"
        using run_session_kw_scraped_places(1) [of cfg g "sessions r" s] by simp
      show ?thesis
      proof (cases res)
        case (Inr result)
        with Pair have "result = scraped_places s"
          using run_session_kw_scraped_places(2) [of cfg g "sessions r" s result] by simp
        with True Pair Inr k show ?thesis by simp
      next
        case (Inl e)
        with True Pair k "1.IH" [of res s' e] show ?thesis by simp
      qed
    qed
  qed
qed

text \<open>
  Claim C2. In keyword-search mode \<open>parse_place_details\<close> returns \<open>None\<close> for every page
  and leaves the scraper as it was: the lookup of \<open>'networkidle_timeout'\<close> in \<open>TIMING\<close>
  raises KeyError, which the handler of the function swallows. Hence a run of the
  keyword scraper never adds a record: it returns the list it started with, and that
  list is unchanged at the end.
\<close>

theorem keyword_mode_never_scrapes:
  "getitem TIMING ''networkidle_timeout'' = Inl ([CHR 0x27] @ ''networkidle_timeout'' @ [CHR 0x27])
   \<and> parse_place_details_kw g now pg s = (None, s)
   \<and> fst (scrape_with_retry_kw cfg g sessions max_retries s) = scraped_places s
   \<and> scraped_places (snd (scrape_with_retry_kw cfg g sessions max_retries s)) = scraped_places s"
  using retry_loop_kw_scraped_places [of cfg g sessions max_retries 0 s]
  by (simp add: networkidle_timeout_missing parse_place_details_kw_None scrape_with_retry_kw_def)

section \<open>ScrapeOrchestrator: what a session attempt leaves alone\<close>

lemma is_duplicate_frame:
  "attempts (snd (is_duplicate g nm lat lon s)) = attempts s"
  "visited (snd (is_duplicate g nm lat lon s)) = visited s"
  "scraped_places (snd (is_duplicate g nm lat lon s)) = scraped_places s"
  by (simp_all add: is_duplicate_def)

lemma parse_from_check_frame:
  "attempts (snd (parse_from_check g now pg s)) = attempts s"
  "visited (snd (parse_from_check g now pg s)) = visited s"
  "scraped_places (snd (parse_from_check g now pg s)) = scraped_places s"
  by (simp_all add: parse_from_check_def Let_def split_beta is_duplicate_frame
      split: sum.splits)

lemma swallow_snd: "snd (swallow r) = snd r"
  by (cases r) (simp add: swallow_def split: sum.splits)

lemma parse_place_details_frame:
  "attempts (snd (parse_place_details g now pg s)) = attempts s"
  "visited (snd (parse_place_details g now pg s)) = visited s"
  "scraped_places (snd (parse_place_details g now pg s)) = scraped_places s"
  by (simp_all add: parse_place_details_def swallow_snd parse_from_check_frame
      split: sum.splits option.splits)





section \<open>ScrapeOrchestrator: the outer retry loop\<close>



lemma retry_loop_failed_attempt:
  assumes "int r < m" and "run_session cfg g (sessions r) already s = (Inl e, s')"
  shows "retry_loop cfg g sessions m r already s
           = retry_loop cfg g sessions m (r + 1) already (s'\<lparr>attempts := attempts s' @ [Some e]\<rparr>)"
  using assms by simp

lemma retry_loop_exhausted:
  assumes "\<not> int r < m"
  shows "retry_loop cfg g sessions m r already s = (scraped_places s, s)"
  using assms by simp





section \<open>ScrapeOrchestrator: the result cap\<close>

lemma visit_place_visited:
  "set (visited (snd (snd (visit_place g v link pd s)))) \<subseteq> insert link (set (visited s))"
proof (cases "parse_place_details g (clock v) (parsing v) (s\<lparr>visited := visited s @ [link]\<rparr>)")
  case (Pair r s1)
  then have "visited s1 = visited s @ [link]"
    using parse_place_details_frame(2) [of g "clock v" "parsing v" "s\<lparr>visited := visited s @ [link]\<rparr>"]
    by simp
  with Pair show ?thesis
    by (auto simp: visit_place_def Let_def accept_place_def split: sum.splits option.splits)
qed

lemma place_retry_loop_visited:
  "set (visited (snd (place_retry_loop g vs link r pd s))) \<subseteq> insert link (set (visited s))"
proof (induction g vs link r pd s rule: place_retry_loop.induct)
  case (1 g vs link r pd s)
  show ?case
  proof (cases "r < max_place_retry \<and> pd = None")
    case False
    then show ?thesis by auto
  next
    case True
    obtain e pd' s' where v: "visit_place g (vs r) link pd s = (e, pd', s')"
      by (cases "visit_place g (vs r) link pd s") auto
    then have a: "set (visited s') \<subseteq> insert link (set (visited s))"
      using visit_place_visited [of g "vs r" link pd s] by simp
    show ?thesis
    proof (cases e)
      case None
      with True v a "1.IH"(1) [of e "(pd', s')" pd' s'] show ?thesis
        by auto
    next
      case (Some msg)
      show ?thesis
      proof (cases "max_place_retry \<le> r + 1 \<or> escalates msg")
        case True
        with \<open>r < max_place_retry \<and> pd = None\<close> v a Some show ?thesis
          by (auto simp: give_up_def)
      next
        case False
        with \<open>r < max_place_retry \<and> pd = None\<close> v a Some
          "1.IH"(2) [of e "(pd', s')" msg pd' s'] show ?thesis
          by auto
      qed
    qed
  qed
qed

lemma process_links_visited:
  "set (visited (snd (process_links g m vss i links s))) \<subseteq> set (visited s) \<union> set links"
proof (induction links arbitrary: i s)
  case Nil
  then show ?case by simp
next
  case (Cons link links)
  obtain e s' where p: "place_retry_loop g (vss i) link 0 None s = (e, s')"
    by (cases "place_retry_loop g (vss i) link 0 None s") auto
  then have "set (visited s') \<subseteq> insert link (set (visited s))"
    using place_retry_loop_visited [of g "vss i" link 0 None s] by simp
  with p Cons.IH [of "Suc i" s'] show ?case
    by (auto split: option.splits)
qed

lemma process_links_at_cap:
  "m \<le> int (length (scraped_places s)) \<Longrightarrow> process_links g m vss i links s = (None, s)"
  by (cases links) simp_all

text \<open>
  Claim C8. The per-item loop stops pulling links once the number of accepted records
  has reached \<open>max_results\<close>: if the loop, run on the links \<open>before\<close> alone, ends with
  the cap reached, then run on \<open>before @ rest\<close> it ends in the very same state, so that
  no link of \<open>rest\<close> is handed to \<open>page.goto\<close>, and every link in the trace of visits was
  visited before the loop or is one of \<open>before\<close>.
\<close>

theorem result_cap:
  assumes "process_links g m vss i before s = (None, s1)"
    and "m \<le> int (length (scraped_places s1))"
  shows "process_links g m vss i (before @ rest) s = (None, s1)
         \<and> set (visited s1) \<subseteq> set (visited s) \<union> set before"
proof
  show "process_links g m vss i (before @ rest) s = (None, s1)"
    using assms
  proof (induction before arbitrary: i s)
    case Nil
    then show ?case by (simp add: process_links_at_cap)
  next
    case (Cons link before)
    show ?case
    proof (cases "m \<le> int (length (scraped_places s))")
      case True
      with Cons.prems show ?thesis by simp
    next
      case False
      obtain e s' where p: "place_retry_loop g (vss i) link 0 None s = (e, s')"
        by (cases "place_retry_loop g (vss i) link 0 None s") auto
      show ?thesis
      proof (cases e)
        case (Some msg)
        with False p Cons.prems show ?thesis by simp
      next
        case None
        with False p Cons.prems have "process_links g m vss (Suc i) before s' = (None, s1)"
          by simp
        from Cons.IH [OF this Cons.prems(2)] False p None show ?thesis by simp
      qed
    qed
  qed
  show "set (visited s1) \<subseteq> set (visited s) \<union> set before"
    using process_links_visited [of g m vss i before s] assms(1) by simp
qed

text \<open>With five links found, \<open>max_results = 3\<close> and each visited listing giving a record:
  the first three are fetched, the fourth and the fifth never.\<close>

lemma listing_page_clean: "\<not> check_for_captcha (listing_page nm u)"
  by (simp add: check_for_captcha_def getitem_captcha_indicator listing_page_def
      blocking_keywords_def) code_simp

lemma place_name_selector: "getitem SELECTORS ''place_name'' = Inr ''h1.DUwDvf, h1.fontHeadlineLarge''"
  by (simp add: getitem_def SELECTORS_def)

lemma timing_lookups:
  "getitem TIMING ''item_parse_delay'' = Inr 0.5"
  "getitem TIMING ''navigation_timeout'' = Inr 30000"
  "getitem TIMING ''page_load_timeout'' = Inr 30000"
  by (simp_all add: getitem_def TIMING_def)

lemma build_listing:
  "build_place now (listing_page nm u) u nm None None = Inr ((listing_record nm u)\<lparr>scraped_at := now\<rparr>)"
  by (simp add: build_place_def select_text_def select_attribute_def then_do_def getitem_def
      SELECTORS_def website_step_def truthy_str_def listing_page_def listing_record_def)

lemma parse_listing:
  assumes "nm \<noteq> []" and "nm \<notin> seen_places s"
  shows "parse_place_details g ''2024-01-01T10:00:00'' (listing_page nm u) s
           = (Some (listing_record nm u), s\<lparr>seen_places := insert nm (seen_places s)\<rparr>)"
proof -
  have t: "extract_text (listing_page nm u) ''h1.DUwDvf, h1.fontHeadlineLarge'' = Some nm"
    "extract_coordinates (listing_page nm u) = (None, None)" "url (listing_page nm u) = u"
    "wait_for_load_state (listing_page nm u) ''domcontentloaded'' = None"
    by (simp_all add: listing_page_def)
  show ?thesis
    using assms
    by (simp add: parse_place_details_def parse_from_check_def swallow_def select_text_def
      then_do_def place_name_selector truthy_str_def is_duplicate_def truthy_float_def
      build_listing listing_page_clean t timing_lookups listing_record_def)
qed

lemma listing_accepted:
  assumes "nm \<noteq> []" and "nm \<notin> seen_places s"
  shows "place_retry_loop g (\<lambda>r. listing_visit nm u) link 0 None s
           = (None, accept_place (listing_visit nm u) (listing_record nm u)
                (s\<lparr>visited := visited s @ [link], seen_places := insert nm (seen_places s)\<rparr>))"
proof -
  have v: "goto_error (listing_visit nm u) = None" "loaded (listing_visit nm u) = listing_page nm u"
    "parsing (listing_visit nm u) = listing_page nm u" "clock (listing_visit nm u) = ''2024-01-01T10:00:00''"
    "go_back_error (listing_visit nm u) = None"
    by (simp_all add: listing_visit_def)
  have "visit_place g (listing_visit nm u) link None s
          = (None, Some (listing_record nm u), accept_place (listing_visit nm u) (listing_record nm u)
                (s\<lparr>visited := visited s @ [link], seen_places := insert nm (seen_places s)\<rparr>))"
    using assms
    by (simp add: visit_place_def v listing_page_clean parse_listing timing_lookups)
  then show ?thesis
    by (simp add: max_place_retry_def)
qed

lemma five_visits_simps:
  "five_visits 0 = (\<lambda>r. listing_visit ''Cafe A'' ''https://www.google.com/maps/place/Cafe+A'')"
  "five_visits (Suc 0) = (\<lambda>r. listing_visit ''Cafe B'' ''https://www.google.com/maps/place/Cafe+B'')"
  "five_visits (Suc (Suc 0)) = (\<lambda>r. listing_visit ''Cafe C'' ''https://www.google.com/maps/place/Cafe+C'')"
  by (simp_all add: five_visits_def five_listings_def fun_eq_iff)

lemma first_three_listings:
  "process_links g 3 five_visits 0 (take 3 (map snd five_listings)) new_scraper
     = (None, snd (process_links g 3 five_visits 0 (take 3 (map snd five_listings)) new_scraper))
   \<and> visited (snd (process_links g 3 five_visits 0 (take 3 (map snd five_listings)) new_scraper))
       = take 3 (map snd five_listings)
   \<and> map name (scraped_places (snd (process_links g 3 five_visits 0 (take 3 (map snd five_listings)) new_scraper)))
       = take 3 (map fst five_listings)"
  by (simp add: five_listings_def five_visits_simps listing_accepted accept_place_def
      new_scraper_def listing_record_def del: place_retry_loop.simps)

theorem result_cap_witness:
  "fst (process_links demo_geodesic 3 five_visits 0 (map snd five_listings) new_scraper) = None
   \<and> visited (snd (process_links demo_geodesic 3 five_visits 0 (map snd five_listings) new_scraper))
       = [''https://www.google.com/maps/place/Cafe+A'',
          ''https://www.google.com/maps/place/Cafe+B'',
          ''https://www.google.com/maps/place/Cafe+C'']
   \<and> map name (scraped_places
         (snd (process_links demo_geodesic 3 five_visits 0 (map snd five_listings) new_scraper)))
       = [''Cafe A'', ''Cafe B'', ''Cafe C'']"
proof -
  define links where "links = map snd five_listings"
  define s3 where "s3 = snd (process_links demo_geodesic 3 five_visits 0 (take 3 links) new_scraper)"
  note f = first_three_listings [of demo_geodesic, folded links_def, folded s3_def]
  from f have p: "process_links demo_geodesic 3 five_visits 0 (take 3 links) new_scraper = (None, s3)"
    by blast
  from f have v: "visited s3 = take 3 links"
    by blast
  from f have n: "map name (scraped_places s3) = take 3 (map fst five_listings)"
    by blast
  from n have "length (map name (scraped_places s3)) = length (take 3 (map fst five_listings))"
    by simp
  then have cap: "3 \<le> int (length (scraped_places s3))"
    by (simp add: five_listings_def)
  have "process_links demo_geodesic 3 five_visits 0 (take 3 links @ drop 3 links) new_scraper
          = (None, s3)"
    using result_cap [OF p cap, of "drop 3 links"] by blast
  then have r: "process_links demo_geodesic 3 five_visits 0 links new_scraper = (None, s3)"
    by simp
  have tl: "take 3 links = [''https://www.google.com/maps/place/Cafe+A'',
          ''https://www.google.com/maps/place/Cafe+B'',
          ''https://www.google.com/maps/place/Cafe+C'']"
    by (simp add: links_def five_listings_def)
  have tn: "take 3 (map fst five_listings) = [''Cafe A'', ''Cafe B'', ''Cafe C'']"
    by (simp add: five_listings_def)
  show ?thesis
    unfolding links_def [symmetric]
    by (simp add: r v n tl tn)
qed

section \<open>ScrapeOrchestrator: a block met while processing an item\<close>

lemma escalates_examples:
  "escalates ''CAPTCHA detected, rotating proxy''"
  "\<not> escalates ''Timeout 30000ms exceeded.''"
  "\<not> escalates ''Failed to parse place data''"
  by code_simp+

lemma visit_place_blocked:
  assumes "goto_error v = None" and "check_for_captcha (loaded v)"
  shows "visit_place g v link pd s
           = (Some ''CAPTCHA detected, rotating proxy'', pd, s\<lparr>visited := visited s @ [link]\<rparr>)"
  using assms by (simp add: visit_place_def timing_lookups)

lemma visit_place_goto_fails:
  assumes "goto_error v = Some e"
  shows "visit_place g v link pd s = (Some e, pd, s\<lparr>visited := visited s @ [link]\<rparr>)"
  using assms by (simp add: visit_place_def timing_lookups)

lemma first_attempt_block_escalates:
  assumes "goto_error (vs 0) = None" and "check_for_captcha (loaded (vs 0))"
  shows "place_retry_loop g vs link 0 None s
           = (Some ''CAPTCHA detected, rotating proxy'', s\<lparr>visited := visited s @ [link]\<rparr>)"
  using assms
  by (simp add: visit_place_blocked escalates_examples max_place_retry_def)

text \<open>
  Claim C6 (the code departs from it). A block detected while an item is processed is to
  escalate to the outer loop at every point of the item's retry sequence. The handler of
  the per-item loop tests the retry count before it tests the message: when the first
  fetch of a link fails for another reason (here a timeout) and the second fetch lands
  on the block page, the exception "CAPTCHA detected, rotating proxy" is the one that
  uses up the retries. It is written to the failure log by \<open>give_up\<close>, nothing is raised
  (the first component is \<open>None\<close>), and the loop goes on to the next link in the same
  session. A block met at the first fetch does escalate
  (\<open>first_attempt_block_escalates\<close>), as every block does in the keyword scraper
  (\<open>keyword_loop_block_escalates\<close>).
\<close>

theorem block_on_last_retry_not_escalated:
  "place_retry_loop g timeout_then_blocked link 0 None s
     = (None, give_up idle_visit link ''CAPTCHA detected, rotating proxy''
                (s\<lparr>visited := visited s @ [link, link]\<rparr>))"
proof -
  have v0: "visit_place g (timeout_then_blocked 0) link None s
              = (Some ''Timeout 30000ms exceeded.'', None, s\<lparr>visited := visited s @ [link]\<rparr>)"
    by (simp add: visit_place_goto_fails timeout_then_blocked_def timeout_visit_def)
  have v1: "\<And>s'. visit_place g idle_visit link None s'
              = (Some ''CAPTCHA detected, rotating proxy'', None, s'\<lparr>visited := visited s' @ [link]\<rparr>)"
    by (simp add: visit_place_blocked idle_visit_def interstitial_page_blocked)
  have t: "timeout_then_blocked (Suc 0) = idle_visit"
    by (simp add: timeout_then_blocked_def)
  show ?thesis
    apply (subst place_retry_loop.simps)
    apply (simp add: v0 escalates_examples max_place_retry_def del: place_retry_loop.simps)
    apply (subst place_retry_loop.simps)
    apply (simp add: v1 t max_place_retry_def del: place_retry_loop.simps)
    done
qed

text \<open>
  A block that \<open>parse_place_details\<close> detects is lost as well: its exception is swallowed
  by the function's own handler, the loop sees "Failed to parse place data", which is
  not a message that escalates, and retries in place.
\<close>

lemma parse_place_details_blocked:
  "check_for_captcha pg \<Longrightarrow> parse_place_details g now pg s = (None, s)"
  by (simp add: parse_place_details_def parse_from_check_def swallow_def timing_lookups
      split: option.splits)

lemma block_while_parsing_not_escalated:
  "visit_place g blocked_while_parsing link None s
     = (Some ''Failed to parse place data'', None, s\<lparr>visited := visited s @ [link]\<rparr>)"
  by (simp add: visit_place_def timing_lookups blocked_while_parsing_def idle_visit_def
      listing_page_clean parse_place_details_blocked interstitial_page_blocked)

lemma keyword_loop_block_escalates:
  assumes "\<not> m \<le> int (length (scraped_places s))"
    and "goto_error (vss i 0) = None" and "check_for_captcha (loaded (vss i 0))"
  shows "process_links_kw g m vss i (link # links) s
           = (Some ''CAPTCHA detected, rotating proxy'', s\<lparr>visited := visited s @ [link]\<rparr>)"
proof -
  have "py_in ''CAPTCHA'' ''CAPTCHA detected, rotating proxy''" by code_simp
  with assms show ?thesis
    by (simp add: visit_place_kw_def timing_lookups)
qed

section \<open>The same two properties for the keyword scraper\<close>

text \<open>
  \<open>PlaceScraper.scrape_with_retry\<close> has the same outer loop and the same test at the head
  of its per-item loop; the bound on the attempts and the cap hold for it in the same
  form.
\<close>

lemma visit_place_kw_attempts:
  "attempts (snd (visit_place_kw g v link s)) = attempts s"
  by (simp add: visit_place_kw_def parse_place_details_kw_None Let_def
      split: sum.splits option.splits)

lemma process_links_kw_attempts:
  "attempts (snd (process_links_kw g m vss i links s)) = attempts s"
proof (induction links arbitrary: i s)
  case Nil
  then show ?case by simp
next
  case (Cons link links)
  obtain e s' where p: "visit_place_kw g (vss i 0) link s = (e, s')"
    by (cases "visit_place_kw g (vss i 0) link s") auto
  then have "attempts s' = attempts s"
    using visit_place_kw_attempts [of g "vss i 0" link s] by simp
  with p Cons.IH [of "Suc i" s'] show ?case
    by (simp split: option.splits)
qed

lemma run_session_kw_attempts:
  "attempts (snd (run_session_kw cfg g ss s)) = attempts s"
proof -
  let ?s0 = "s\<lparr>proxy_mgr := snd (get_next_proxy (proxy_mgr s))\<rparr>"
  obtain r1 s1 where p: "process_links_kw g (kw_max_results cfg) (visits ss) 0
      (collect_results_kw cfg ss) ?s0 = (r1, s1)"
    by (cases "process_links_kw g (kw_max_results cfg) (visits ss) 0
      (collect_results_kw cfg ss) ?s0") auto
  then have "attempts s1 = attempts s"
    using process_links_kw_attempts [of g "kw_max_results cfg" "visits ss" 0
        "collect_results_kw cfg ss" ?s0] by simp
  with p show ?thesis
    by (simp add: run_session_kw_def Let_def split_beta split: option.splits)
qed

lemma retry_loop_kw_all_attempts_fail:
  assumes "\<forall>out \<in> set (attempts (snd (retry_loop_kw cfg g sessions m r s))). out \<noteq> None"
  shows "length (attempts (snd (retry_loop_kw cfg g sessions m r s)))
           = length (attempts s) + nat (m - int r)
         \<and> fst (retry_loop_kw cfg g sessions m r s)
           = scraped_places (snd (retry_loop_kw cfg g sessions m r s))"
  using assms
proof (induction cfg g sessions m r s rule: retry_loop_kw.induct)
  case (1 cfg g sessions m r s)
  show ?case
  proof (cases "int r < m")
    case False
    then show ?thesis by simp
  next
    case True
    obtain res s' where rs: "run_session_kw cfg g (sessions r) s = (res, s')"
      by (cases "run_session_kw cfg g (sessions r) s") auto
    then have a: "attempts s' = attempts s"
      using run_session_kw_attempts [of cfg g "sessions r" s] by simp
    show ?thesis
    proof (cases res)
      case (Inr result)
      with True rs "1.prems" show ?thesis by simp
    next
      case (Inl e)
      let ?s1 = "s'\<lparr>attempts := attempts s' @ [Some e]\<rparr>"
      have step: "retry_loop_kw cfg g sessions m r s = retry_loop_kw cfg g sessions m (r + 1) ?s1"
        using True rs Inl by simp
      with "1.prems" have
        "\<forall>out \<in> set (attempts (snd (retry_loop_kw cfg g sessions m (r + 1) ?s1))). out \<noteq> None"
        by simp
      from "1.IH" [OF True rs [symmetric] Inl this] step a True show ?thesis
        by (simp add: nat_diff_distrib')
    qed
  qed
qed

lemma scrape_with_retry_kw_all_attempts_fail:
  assumes "attempts s = []"
    and "\<forall>out \<in> set (attempts (snd (scrape_with_retry_kw cfg g sessions max_retries s))).
           out \<noteq> None"
  shows "length (attempts (snd (scrape_with_retry_kw cfg g sessions max_retries s)))
           = nat max_retries
         \<and> fst (scrape_with_retry_kw cfg g sessions max_retries s)
           = scraped_places (snd (scrape_with_retry_kw cfg g sessions max_retries s))"
  using assms retry_loop_kw_all_attempts_fail [of cfg g sessions max_retries 0 s]
  by (simp add: scrape_with_retry_kw_def)

lemma process_links_kw_at_cap:
  "m \<le> int (length (scraped_places s)) \<Longrightarrow> process_links_kw g m vss i links s = (None, s)"
  by (cases links) simp_all

lemma result_cap_kw:
  assumes "process_links_kw g m vss i before s = (None, s1)"
    and "m \<le> int (length (scraped_places s1))"
  shows "process_links_kw g m vss i (before @ rest) s = (None, s1)"
  using assms
proof (induction before arbitrary: i s)
  case Nil
  then show ?case by (simp add: process_links_kw_at_cap)
next
  case (Cons link before)
  show ?case
  proof (cases "m \<le> int (length (scraped_places s))")
    case True
    with Cons.prems show ?thesis by simp
  next
    case False
    obtain e s' where p: "visit_place_kw g (vss i 0) link s = (e, s')"
      by (cases "visit_place_kw g (vss i 0) link s") auto
    show ?thesis
    proof (cases "\<exists>msg. e = Some msg \<and> py_in ''CAPTCHA'' msg")
      case True
      with False p Cons.prems show ?thesis by auto
    next
      case False
      with \<open>\<not> m \<le> int (length (scraped_places s))\<close> p Cons.prems
      have "process_links_kw g m vss (Suc i) before s' = (None, s1)"
        by (auto split: option.splits)
      from Cons.IH [OF this Cons.prems(2)] False \<open>\<not> m \<le> int (length (scraped_places s))\<close> p
      show ?thesis by (auto split: option.splits)
    qed
  qed
qed

end
